theory Spec2Isabelle
  imports Complex_Main "HOL-Library.Multiset"
begin

section \<open>Order-book aggregator: data model\<close>

text \<open>
  A price level is the two-element list \<^verbatim>\<open>[price, size]\<close> the venue adapters build;
  the code reads it as \<^verbatim>\<open>x[0]\<close> and by unpacking \<^verbatim>\<open>for price, size in asks\<close>.
  It is modelled as a pair. Prices, sizes, quantities and timestamps are Python floats in the
  source; they are modelled as exact reals, so the results below are about the algorithms in
  exact arithmetic and say nothing about IEEE-754 rounding, infinities or NaN.
\<close>

type_synonym level = "real \<times> real"

abbreviation price_of :: "level \<Rightarrow> real" where
  "price_of \<equiv> fst"


text \<open>The only exception the pricing functions raise themselves, with its message.\<close>

datatype error = ValueError string

section \<open>Pricing a market order: \<^verbatim>\<open>compute_buy_cost\<close> and \<^verbatim>\<open>compute_sell_revenue\<close>\<close>

text \<open>
  \<^verbatim>\<open>
  def compute_buy_cost(asks, qty):
      total_cost = 0.0
      remaining = qty
      for price, size in asks:
          available = min(size, remaining)
          total_cost += available * price
          remaining -= available
          if remaining <= 0:
              break
      if remaining > 0:
          raise ValueError("Insufficient liquidity to buy the requested quantity.")
      return total_cost
  \<close>
  The \<^verbatim>\<open>for\<close> loop with its \<^verbatim>\<open>break\<close> is a recursion over the list that carries
  the two loop variables and returns both when the list ends or the loop breaks.
\<close>

fun buy_loop :: "level list \<Rightarrow> real \<Rightarrow> real \<Rightarrow> real \<times> real" where
  "buy_loop [] total_cost remaining = (total_cost, remaining)"
| "buy_loop ((price, sz) # asks) total_cost remaining =
     (let available = min sz remaining;
          total_cost = total_cost + available * price;
          remaining = remaining - available
      in if remaining \<le> 0 then (total_cost, remaining)
         else buy_loop asks total_cost remaining)"

definition compute_buy_cost :: "level list \<Rightarrow> real \<Rightarrow> error + real" where
  "compute_buy_cost asks qty =
     (case buy_loop asks 0 qty of
        (total_cost, remaining) \<Rightarrow>
          if remaining > 0
          then Inl (ValueError ''Insufficient liquidity to buy the requested quantity.'')
          else Inr total_cost)"

text \<open>\<^verbatim>\<open>compute_sell_revenue\<close> is a second copy of the same text in the source, so it gets
  its own definitions here.\<close>

fun sell_loop :: "level list \<Rightarrow> real \<Rightarrow> real \<Rightarrow> real \<times> real" where
  "sell_loop [] total_revenue remaining = (total_revenue, remaining)"
| "sell_loop ((price, sz) # bids) total_revenue remaining =
     (let available = min sz remaining;
          total_revenue = total_revenue + available * price;
          remaining = remaining - available
      in if remaining \<le> 0 then (total_revenue, remaining)
         else sell_loop bids total_revenue remaining)"

definition compute_sell_revenue :: "level list \<Rightarrow> real \<Rightarrow> error + real" where
  "compute_sell_revenue bids qty =
     (case sell_loop bids 0 qty of
        (total_revenue, remaining) \<Rightarrow>
          if remaining > 0
          then Inl (ValueError ''Insufficient liquidity to sell the requested quantity.'')
          else Inr total_revenue)"





section \<open>Merging the venues' books: \<^verbatim>\<open>aggregate_orderbooks\<close>\<close>

text \<open>
  \<^verbatim>\<open>
  def aggregate_orderbooks(bid_lists, ask_lists):
      all_bids = sorted([entry for sublist in bid_lists for entry in sublist], key=lambda x: -x[0])
      all_asks = sorted([entry for sublist in ask_lists for entry in sublist], key=lambda x: x[0])
      return all_bids, all_asks
  \<close>
  The nested comprehension is \<open>concat\<close>. Python's built-in \<^verbatim>\<open>sorted\<close> sorts ascending by
  the key and is stable; \<open>sort_key\<close> is the stable sort of the list library, and since a stable
  sort by a key has only one possible output, the two agree on every input.
\<close>

definition aggregate_orderbooks :: "level list list \<Rightarrow> level list list \<Rightarrow> level list \<times> level list" where
  "aggregate_orderbooks bid_lists ask_lists =
     (let all_bids = sort_key (\<lambda>x. - fst x) (concat bid_lists);
          all_asks = sort_key (\<lambda>x. fst x) (concat ask_lists)
      in (all_bids, all_asks))"

section \<open>The rate limiter: \<^verbatim>\<open>rate_limiter\<close> and its \<^verbatim>\<open>wrapper\<close>\<close>

text \<open>
  \<^verbatim>\<open>
  def rate_limiter(min_interval=2.0):
      def decorator(func):
          state = {"t": 0.0, "result": None}
          lock = Lock()
          @wraps(func)
          def wrapper(*args, **kwargs):
              now = time.time()
              with lock:
                  if (now - state["t"] < min_interval) and (state["result"] is not None):
                      return state["result"]
              result = func(*args, **kwargs)
              with lock:
                  state["t"] = now
                  state["result"] = result
              return result
          return wrapper
      return decorator
  \<close>
  The closure's dictionary is a record. A Python value is \<open>None\<close> or something else, so the
  stored result and the value \<^verbatim>\<open>func\<close> returns are both an \<open>option\<close>: \<open>None\<close> is
  Python's \<^verbatim>\<open>None\<close>, also when it is what \<^verbatim>\<open>func\<close> returned.
\<close>

record 'a state =
  t :: real
  result :: "'a option"

definition initial_state :: "'a state" where
  "initial_state = \<lparr>t = 0, result = None\<rparr>"

text \<open>
  \<^verbatim>\<open>func\<close> reads the network: it is a function of its arguments and of the world \<open>'w\<close>, which
  it may change, and it returns a value (\<open>Inr\<close>) or raises (\<open>Inl\<close>). One call of the wrapper
  by a single thread takes the clock reading \<open>now\<close> of that call, the arguments, the closure's
  state and the world; it gives back what the caller sees, the state and the world. An
  exception raised by \<^verbatim>\<open>func\<close> leaves the function before the assignments.
\<close>

definition wrapper ::
  "real \<Rightarrow> ('args \<Rightarrow> 'w \<Rightarrow> ('e + 'a option) \<times> 'w) \<Rightarrow> real \<Rightarrow> 'args \<Rightarrow>
   'a state \<times> 'w \<Rightarrow> ('e + 'a option) \<times> 'a state \<times> 'w" where
  "wrapper min_interval func now args = (\<lambda>(state, w).
     if now - t state < min_interval \<and> result state \<noteq> None
     then (Inr (result state), state, w)
     else (case func args w of
             (Inl e, w') \<Rightarrow> (Inl e, state, w')
           | (Inr res, w') \<Rightarrow> (Inr res, state\<lparr>t := now, result := res\<rparr>, w')))"

text \<open>
  To speak of how often \<^verbatim>\<open>func\<close> is invoked, it is run with a journal in front of the world:
  every invocation appends its outcome. The wrapper does not see the journal.
\<close>

definition logged ::
  "('args \<Rightarrow> 'w \<Rightarrow> 'r \<times> 'w) \<Rightarrow> 'args \<Rightarrow> 'r list \<times> 'w \<Rightarrow> 'r \<times> 'r list \<times> 'w" where
  "logged func args = (\<lambda>(journal, w).
     case func args w of (r, w') \<Rightarrow> (r, journal @ [r], w'))"

text \<open>A single-threaded caller making one call after the other, each with its clock reading
  and arguments; the result is the state and world after the last call.\<close>

fun run ::
  "real \<Rightarrow> ('args \<Rightarrow> 'w \<Rightarrow> ('e + 'a option) \<times> 'w) \<Rightarrow> (real \<times> 'args) list \<Rightarrow>
   'a state \<times> 'w \<Rightarrow> 'a state \<times> 'w" where
  "run min_interval func [] c = c"
| "run min_interval func ((now, args) # calls) c =
     run min_interval func calls (snd (wrapper min_interval func now args c))"

text \<open>A \<^verbatim>\<open>func\<close> that returns \<^verbatim>\<open>None\<close> and one that returns a number.\<close>

definition returns_none :: "unit \<Rightarrow> unit \<Rightarrow> (unit + nat option) \<times> unit" where
  "returns_none args w = (Inr None, w)"

definition returns_7 :: "unit \<Rightarrow> unit \<Rightarrow> (unit + nat option) \<times> unit" where
  "returns_7 args w = (Inr (Some 7), w)"

definition raises :: "unit \<Rightarrow> unit \<Rightarrow> (unit + nat option) \<times> unit" where
  "raises args w = (Inl (), w)"

section \<open>Properties of the walk\<close>

lemma sell_loop_eq_buy_loop: "sell_loop levels tot rem = buy_loop levels tot rem"
  by (induction levels tot rem rule: buy_loop.induct) (simp_all add: Let_def)




















text \<open>
  Claim C8. On every sequence of levels and every quantity the two pricing functions do the
  same thing: one returns a total exactly when the other returns that total, and one raises
  exactly when the other does.
\<close>

theorem buy_and_sell_same_walk:
  "(compute_buy_cost levels qty = Inr v \<longleftrightarrow> compute_sell_revenue levels qty = Inr v) \<and>
   (isl (compute_buy_cost levels qty) \<longleftrightarrow> isl (compute_sell_revenue levels qty)) \<and>
   sell_loop levels 0 qty = buy_loop levels 0 qty"
  by (simp add: compute_buy_cost_def compute_sell_revenue_def sell_loop_eq_buy_loop
           split: prod.splits)




section \<open>Properties of the aggregation\<close>

lemma sorted_desc_by_neg_key:
  "sorted (map (\<lambda>x. - fst x) xs) \<longleftrightarrow> sorted_wrt (\<lambda>a b. fst b \<le> fst a) (xs :: level list)"
  by (simp add: sorted_map)

lemma sorted_asc_by_key:
  "sorted (map (\<lambda>x. fst x) xs) \<longleftrightarrow> sorted_wrt (\<lambda>a b. fst a \<le> fst b) (xs :: level list)"
  by (simp add: sorted_map)

text \<open>Any list that is sorted by the key, holds the same elements and keeps the input's
  order among equal keys is the output of \<open>sort_key\<close>: a stable sort has one output.\<close>

lemma stable_sort_is_sort_key:
  assumes "mset ys = mset xs" and "sorted (map f ys)"
    and "\<And>k. filter (\<lambda>x. f x = k) ys = filter (\<lambda>x. f x = k) xs"
  shows "sort_key f xs = ys"
proof (rule properties_for_sort_key)
  show "mset ys = mset xs" by (rule assms(1))
  show "sorted (map f ys)" by (rule assms(2))
  show "filter (\<lambda>x. f k = f x) ys = filter (\<lambda>x. f k = f x) xs" for k
    using assms(3)[of "f k"] by (simp add: eq_commute)
qed

text \<open>The specification's scenario: venue A bids \<open>[[99,1]]\<close>, venue B bids \<open>[[100,2]]\<close>;
  selling 2 into the merged bids yields 200.\<close>

lemma aggregate_scenario:
  "aggregate_orderbooks [[(99, 1)], [(100, 2)]] [[(101, 5)], []] =
     ([(100, 2), (99, 1)], [(101, 5)]) \<and>
   compute_sell_revenue [(100, 2), (99, 1)] 2 = Inr 200"
  by (simp add: aggregate_orderbooks_def compute_sell_revenue_def)

text \<open>
  Claim C2. Whatever lists of bids and asks come in, the bids come out with prices
  non-increasing and the asks with prices non-decreasing, and each side holds exactly the
  levels of its input lists, each as often as it came in.
\<close>

theorem aggregate_sorted_and_complete:
  "sorted_wrt (\<lambda>a b. price_of b \<le> price_of a) (fst (aggregate_orderbooks bid_lists ask_lists)) \<and>
   sorted_wrt (\<lambda>a b. price_of a \<le> price_of b) (snd (aggregate_orderbooks bid_lists ask_lists)) \<and>
   mset (fst (aggregate_orderbooks bid_lists ask_lists)) = (\<Sum>bids\<leftarrow>bid_lists. mset bids) \<and>
   mset (snd (aggregate_orderbooks bid_lists ask_lists)) = (\<Sum>asks\<leftarrow>ask_lists. mset asks)"
proof -
  have "sorted (map (\<lambda>x. - fst x) (sort_key (\<lambda>x. - fst x) (concat bid_lists)))"
    by (rule sorted_sort_key)
  then have bids: "sorted_wrt (\<lambda>a b. fst b \<le> fst a) (sort_key (\<lambda>x. - fst x) (concat bid_lists))"
    by (simp only: sorted_desc_by_neg_key)
  have "sorted (map (\<lambda>x. fst x) (sort_key (\<lambda>x. fst x) (concat ask_lists)))"
    by (rule sorted_sort_key)
  then have asks: "sorted_wrt (\<lambda>a b. fst a \<le> fst b) (sort_key (\<lambda>x. fst x) (concat ask_lists))"
    by (simp only: sorted_asc_by_key)
  show ?thesis
    using bids asks by (simp add: aggregate_orderbooks_def mset_concat)
qed

text \<open>
  Claim C7. Levels with the same price are not merged: each side has as many entries as its
  input lists together, and the entries of the output at any one price are the entries of
  the concatenated input at that price, in the same order.
\<close>

theorem aggregate_keeps_equal_prices_in_order:
  "filter (\<lambda>l. price_of l = p) (fst (aggregate_orderbooks bid_lists ask_lists)) =
     filter (\<lambda>l. price_of l = p) (concat bid_lists) \<and>
   filter (\<lambda>l. price_of l = p) (snd (aggregate_orderbooks bid_lists ask_lists)) =
     filter (\<lambda>l. price_of l = p) (concat ask_lists) \<and>
   length (fst (aggregate_orderbooks bid_lists ask_lists)) = length (concat bid_lists) \<and>
   length (snd (aggregate_orderbooks bid_lists ask_lists)) = length (concat ask_lists)"
proof -
  have "filter (\<lambda>l. - fst l = - p) (sort_key (\<lambda>x. - fst x) (concat bid_lists)) =
        filter (\<lambda>l. - fst l = - p) (concat bid_lists)"
    by (rule sort_key_stable)
  then have bids: "filter (\<lambda>l. fst l = p) (sort_key (\<lambda>x. - fst x) (concat bid_lists)) =
                   filter (\<lambda>l. fst l = p) (concat bid_lists)"
    by simp
  have asks: "filter (\<lambda>l. fst l = p) (sort_key (\<lambda>x. fst x) (concat ask_lists)) =
              filter (\<lambda>l. fst l = p) (concat ask_lists)"
    by (rule sort_key_stable)
  show ?thesis
    using bids asks by (simp add: aggregate_orderbooks_def)
qed

section \<open>Properties of the rate limiter\<close>

lemma wrapper_hit:
  "now - t state < mi \<Longrightarrow> result state = Some v \<Longrightarrow>
   wrapper mi func now args (state, w) = (Inr (Some v), state, w)"
  by (simp add: wrapper_def)

lemma wrapper_miss:
  "\<not> (now - t state < mi \<and> result state \<noteq> None) \<Longrightarrow> func args w = (r, w') \<Longrightarrow>
   wrapper mi func now args (state, w) =
     (r, (case r of Inl e \<Rightarrow> state | Inr res \<Rightarrow> state\<lparr>t := now, result := res\<rparr>), w')"
  by (cases r) (auto simp: wrapper_def)

lemma wrapper_logged_miss:
  "\<not> (now - t state < mi \<and> result state \<noteq> None) \<Longrightarrow> func args w = (r, w') \<Longrightarrow>
   wrapper mi (logged func) now args (state, (journal, w)) =
     (r, (case r of Inl e \<Rightarrow> state | Inr res \<Rightarrow> state\<lparr>t := now, result := res\<rparr>),
      (journal @ [r], w'))"
  by (cases r) (auto simp: wrapper_def logged_def)

lemma wrapper_logged_cases:
  assumes "wrapper mi (logged func) now args (state, (journal, w)) = (out, state', (journal', w'))"
  shows "(now - t state < mi \<and> result state \<noteq> None \<and>
          out = Inr (result state) \<and> state' = state \<and> journal' = journal \<and> w' = w) \<or>
         (\<not> (now - t state < mi \<and> result state \<noteq> None) \<and>
          func args w = (out, w') \<and> journal' = journal @ [out] \<and>
          state' = (case out of Inl e \<Rightarrow> state | Inr res \<Rightarrow> state\<lparr>t := now, result := res\<rparr>))"
proof (cases "now - t state < mi \<and> result state \<noteq> None")
  case True
  then show ?thesis using assms by (auto simp: wrapper_def)
next
  case False
  obtain r w1 where f: "func args w = (r, w1)" by (cases "func args w")
  have "wrapper mi (logged func) now args (state, (journal, w)) =
        (r, (case r of Inl e \<Rightarrow> state | Inr res \<Rightarrow> state\<lparr>t := now, result := res\<rparr>),
         (journal @ [r], w1))"
    using wrapper_logged_miss[where func=func and args=args, OF False f] .
  then show ?thesis using assms False f by simp
qed

text \<open>What the stored result is, if it is not \<open>None\<close>, was returned by an invocation in the
  journal; calls keep this true.\<close>

lemma wrapper_keeps_origin:
  assumes "\<forall>v. result state = Some v \<longrightarrow> Inr (Some v) \<in> set journal"
    and "wrapper mi (logged func) now args (state, (journal, w)) = (out, state', (journal', w'))"
  shows "\<forall>v. result state' = Some v \<longrightarrow> Inr (Some v) \<in> set journal'"
  using wrapper_logged_cases[OF assms(2)] assms(1)
  by (auto split: sum.splits)

lemma run_keeps_origin:
  assumes "\<forall>v. result state = Some v \<longrightarrow> Inr (Some v) \<in> set journal"
    and "run mi (logged func) calls (state, (journal, w)) = (state', (journal', w'))"
  shows "\<forall>v. result state' = Some v \<longrightarrow> Inr (Some v) \<in> set journal'"
  using assms
proof (induction calls arbitrary: state journal w)
  case Nil
  then show ?case by simp
next
  case (Cons c calls)
  obtain now args where c: "c = (now, args)" by (cases c)
  obtain out s1 j1 w1 where
    step: "wrapper mi (logged func) now args (state, (journal, w)) = (out, s1, (j1, w1))"
    by (metis prod_cases3)
  have inv: "\<forall>v. result s1 = Some v \<longrightarrow> Inr (Some v) \<in> set j1"
    using wrapper_keeps_origin[OF Cons.prems(1) step] .
  have "run mi (logged func) calls (s1, (j1, w1)) = (state', (journal', w'))"
    using Cons.prems(2) c step by simp
  then show ?case using Cons.IH[OF inv] by simp
qed

text \<open>
  Claim C3, as it stands, fails: a \<^verbatim>\<open>func\<close> that returns \<^verbatim>\<open>None\<close> succeeds, but the
  cached branch asks for a stored result that is not \<^verbatim>\<open>None\<close>, so a second call one second
  later, with a minimum interval of two, invokes \<^verbatim>\<open>func\<close> again.
\<close>

theorem none_result_fetched_again:
  "wrapper 2 (logged returns_none) 10 () (initial_state, ([], ())) =
     (Inr None, \<lparr>t = 10, result = None\<rparr>, ([Inr None], ())) \<and>
   wrapper 2 (logged returns_none) 11 () (\<lparr>t = 10, result = None\<rparr>, ([Inr None], ())) =
     (Inr None, \<lparr>t = 11, result = None\<rparr>, ([Inr None, Inr None], ()))"
  by (simp add: wrapper_def logged_def returns_none_def initial_state_def)

text \<open>
  Claim C3, amended. Take a call at clock reading \<open>now1\<close> that invokes \<^verbatim>\<open>func\<close> and gets a
  value \<open>v\<close> other than \<^verbatim>\<open>None\<close>. It stamps the cache with \<open>now1\<close> and stores \<open>v\<close>. While
  the cache stays so, a call at \<open>now2\<close> with \<open>now2 - now1 < min_interval\<close> returns \<open>v\<close>
  and invokes nothing (journal, state and world are untouched); a call with
  \<open>now2 - now1 \<ge> min_interval\<close> invokes \<^verbatim>\<open>func\<close> exactly once.
\<close>

theorem cached_within_interval_then_refetched:
  assumes "wrapper mi (logged func) now1 args1 (state0, (journal0, w0)) =
             (Inr (Some v), state1, (journal0 @ [Inr (Some v)], w1))"
  shows "t state1 = now1 \<and> result state1 = Some v \<and>
         (now2 - now1 < mi \<longrightarrow>
            wrapper mi (logged func) now2 args2 (state1, (journal, w)) =
              (Inr (Some v), state1, (journal, w))) \<and>
         (mi \<le> now2 - now1 \<longrightarrow>
            (\<exists>r w2. func args2 w = (r, w2) \<and>
               wrapper mi (logged func) now2 args2 (state1, (journal, w)) =
                 (r, (case r of Inl e \<Rightarrow> state1 | Inr res \<Rightarrow> state1\<lparr>t := now2, result := res\<rparr>),
                  (journal @ [r], w2))))"
proof -
  from wrapper_logged_cases[OF assms]
  have s1: "state1 = state0\<lparr>t := now1, result := Some v\<rparr>"
    by auto
  then have st: "t state1 = now1" "result state1 = Some v" by simp_all
  have hit: "wrapper mi (logged func) now2 args2 (state1, (journal, w)) =
               (Inr (Some v), state1, (journal, w))" if "now2 - now1 < mi"
    using wrapper_hit[of now2 state1 mi v] that st by simp
  have miss: "\<exists>r w2. func args2 w = (r, w2) \<and>
               wrapper mi (logged func) now2 args2 (state1, (journal, w)) =
                 (r, (case r of Inl e \<Rightarrow> state1 | Inr res \<Rightarrow> state1\<lparr>t := now2, result := res\<rparr>),
                  (journal @ [r], w2))" if "mi \<le> now2 - now1"
  proof -
    obtain r w2 where f: "func args2 w = (r, w2)" by (cases "func args2 w")
    have no: "\<not> (now2 - t state1 < mi \<and> result state1 \<noteq> None)" using that st by simp
    show ?thesis
      using wrapper_logged_miss[where func=func and args=args2, OF no f] f by blast
  qed
  show ?thesis using st hit miss by blast
qed

theorem cached_within_interval_then_refetched_witness:
  "wrapper 2 (logged returns_7) 10 () (initial_state, ([], ())) =
     (Inr (Some 7), \<lparr>t = 10, result = Some 7\<rparr>, ([] @ [Inr (Some 7)], ())) \<and>
   (11::real) - 10 < 2 \<and>
   wrapper 2 (logged returns_7) 11 () (\<lparr>t = 10, result = Some 7\<rparr>, ([Inr (Some 7)], ())) =
     (Inr (Some 7), \<lparr>t = 10, result = Some 7\<rparr>, ([Inr (Some 7)], ())) \<and>
   (2::real) \<le> 12 - 10 \<and>
   wrapper 2 (logged returns_7) 12 () (\<lparr>t = 10, result = Some 7\<rparr>, ([Inr (Some 7)], ())) =
     (Inr (Some 7), \<lparr>t = 12, result = Some 7\<rparr>, ([Inr (Some 7), Inr (Some 7)], ()))"
proof -
  have first: "wrapper 2 (logged returns_7) 10 () (initial_state, ([], ())) =
     (Inr (Some 7), \<lparr>t = 10, result = Some 7\<rparr>, ([] @ [Inr (Some 7)], ()))"
    by (simp add: wrapper_def logged_def returns_7_def initial_state_def)
  show ?thesis
    using first
      cached_within_interval_then_refetched[OF first, of 11 "()" "[Inr (Some 7)]" "()"]
      cached_within_interval_then_refetched[OF first, of 12 "()" "[Inr (Some 7)]" "()"]
    by (simp add: returns_7_def)
qed

text \<open>
  Claim C4. When \<^verbatim>\<open>func\<close> raises, the stored timestamp and the stored value after the call
  are the ones before it; and when the call gets as far as invoking \<^verbatim>\<open>func\<close>, the caller
  sees that very exception.
\<close>

theorem failed_fetch_keeps_cache:
  assumes "func args w = (Inl e, w')"
  shows "fst (snd (wrapper mi func now args (state, w))) = state \<and>
         (\<not> (now - t state < mi \<and> result state \<noteq> None) \<longrightarrow>
            wrapper mi func now args (state, w) = (Inl e, state, w'))"
  using assms by (simp add: wrapper_def)

theorem failed_fetch_keeps_cache_witness:
  "raises () () = (Inl (), ()) \<and>
   \<not> ((13::real) - t \<lparr>t = 10, result = Some 7\<rparr> < 2 \<and> result \<lparr>t = 10, result = Some (7::nat)\<rparr> \<noteq> None) \<and>
   wrapper 2 raises 13 () (\<lparr>t = 10, result = Some 7\<rparr>, ()) =
     (Inl (), \<lparr>t = 10, result = Some 7\<rparr>, ())"
  using failed_fetch_keeps_cache[of raises "()" "()" "()" "()" 2 13 "\<lparr>t = 10, result = Some 7\<rparr>"]
  by (simp add: raises_def)

text \<open>
  Claim C10. Let a single thread make any calls, starting from the state the decorator
  creates and an empty journal. If the next call does not invoke \<^verbatim>\<open>func\<close> (the journal
  stays as it is), then what it returns is a value other than \<^verbatim>\<open>None\<close> that an invocation
  of \<^verbatim>\<open>func\<close> during the earlier calls returned. And the very first call invokes
  \<^verbatim>\<open>func\<close>, whatever the clock reading and the minimum interval.
\<close>

theorem cached_only_after_successful_fetch:
  assumes "run mi (logged func) calls (initial_state, ([], w0)) = (state, (journal, w))"
    and "wrapper mi (logged func) now args (state, (journal, w)) = (out, state', (journal, w'))"
  shows "(\<exists>v. out = Inr (Some v) \<and> Inr (Some v) \<in> set journal) \<and>
         (\<exists>r w1. func args1 w0 = (r, w1) \<and>
            fst (wrapper mi (logged func) now1 args1 (initial_state, ([], w0))) = r \<and>
            snd (snd (wrapper mi (logged func) now1 args1 (initial_state, ([], w0)))) = ([r], w1))"
proof -
  have init: "\<forall>v. result (initial_state :: 'a state) = Some v \<longrightarrow> Inr (Some v) \<in> set []"
    by (simp add: initial_state_def)
  have inv: "\<forall>v. result state = Some v \<longrightarrow> Inr (Some v) \<in> set journal"
    using run_keeps_origin[OF init assms(1)] .
  from wrapper_logged_cases[OF assms(2)]
  have "result state \<noteq> None \<and> out = Inr (result state)"
    by auto
  then have served: "\<exists>v. out = Inr (Some v) \<and> Inr (Some v) \<in> set journal"
    using inv by auto
  obtain r w1 where f: "func args1 w0 = (r, w1)" by (cases "func args1 w0")
  have no: "\<not> (now1 - t (initial_state :: 'a state) < mi \<and> result (initial_state :: 'a state) \<noteq> None)"
    by (simp add: initial_state_def)
  have "wrapper mi (logged func) now1 args1 (initial_state, ([], w0)) =
        (r, (case r of Inl e \<Rightarrow> initial_state | Inr res \<Rightarrow> initial_state\<lparr>t := now1, result := res\<rparr>),
         ([] @ [r], w1))"
    using wrapper_logged_miss[where func=func and args=args1, OF no f] .
  then have first: "\<exists>r w1. func args1 w0 = (r, w1) \<and>
            fst (wrapper mi (logged func) now1 args1 (initial_state, ([], w0))) = r \<and>
            snd (snd (wrapper mi (logged func) now1 args1 (initial_state, ([], w0)))) = ([r], w1)"
    using f by simp
  show ?thesis using served first by blast
qed

theorem cached_only_after_successful_fetch_witness:
  "run 2 (logged returns_7) [(10, ()), (10.5, ())] (initial_state, ([], ())) =
     (\<lparr>t = 10, result = Some 7\<rparr>, ([Inr (Some 7)], ())) \<and>
   wrapper 2 (logged returns_7) 11 () (\<lparr>t = 10, result = Some 7\<rparr>, ([Inr (Some 7)], ())) =
     (Inr (Some 7), \<lparr>t = 10, result = Some 7\<rparr>, ([Inr (Some 7)], ())) \<and>
   (\<exists>v. Inr (Some 7) = (Inr (Some v) :: unit + nat option) \<and>
        (Inr (Some v) :: unit + nat option) \<in> set [Inr (Some 7)])"
proof -
  have r: "run 2 (logged returns_7) [(10, ()), (10.5, ())] (initial_state, ([], ())) =
     (\<lparr>t = 10, result = Some 7\<rparr>, ([Inr (Some 7)], ()))"
    by (simp add: wrapper_def logged_def returns_7_def initial_state_def)
  have c: "wrapper 2 (logged returns_7) 11 () (\<lparr>t = 10, result = Some 7\<rparr>, ([Inr (Some 7)], ())) =
     (Inr (Some 7), \<lparr>t = 10, result = Some 7\<rparr>, ([Inr (Some 7)], ()))"
    by (simp add: wrapper_def)
  show ?thesis
    using r c cached_only_after_successful_fetch[OF r c] by blast
qed

end
